theory Spec2Isabelle
  imports Main "HOL-Library.AList" "HOL-Library.Char_ord" "HOL-Library.List_Lexorder"
begin

section \<open>The dashboard script \<open>static/app.js\<close>\<close>

text \<open>
  The script keeps one module-level object \<open>state\<close>, reads and writes a handful of page
  elements, shows messages with \<open>alert\<close> and talks to the backend with \<open>fetch\<close>.
  The embedding below passes all of this around as one record: the fields of \<open>state\<close>,
  the page elements the script touches, the list of messages shown and the list of
  requests sent. An \<open>async\<close> function takes the response its \<open>fetch\<close> will receive as an
  argument and is run to completion in one step.

  Conventions.
  \<^item> A plain JavaScript object used as a dictionary (\<open>grouped\<close>, an inner \<open>values\<close> object,
    \<open>state.assigneeSummary\<close>) is the list of its own properties in enumeration order:
    assigning to an existing key keeps its place, a new key goes to the end. (JavaScript
    enumerates keys that look like array indices first; no property below depends on the
    order of the keys.)
  \<^item> Reading \<open>obj[k]\<close> and testing \<open>k in obj\<close> also see what the object inherits from
    \<open>Object.prototype\<close>: the names in \<open>object_prototype_names\<close>, and whatever the script
    itself has stored there. \<open>renderCommitChart\<close> stores rows there when an author is
    called \<open>__proto__\<close>; this is followed within one call, which starts from the
    \<open>Object.prototype\<close> of a freshly loaded page.
  \<^item> Strings are lists of bytes, the UTF-8 bytes of the text; the default \<open>sort\<close> of an
    array of strings is the lexicographic order on them.
  \<^item> \<open>null\<close> and \<open>undefined\<close> are \<open>None\<close>. The tests \<open>x ? .. : ..\<close>, \<open>!x\<close>, \<open>x || d\<close> and
    \<open>x && y\<close> on such a value treat \<open>None\<close> and the empty string alike (both are falsy).
  \<^item> The texts shown by \<open>toast\<close> are Korean; each is a constructor of \<open>message\<close>, named by
    its meaning.
  The earlier copy of the script (without the assignee dashboard) has the same
  \<open>renderCommitChart\<close> grouping, \<open>closeSelectedIssues\<close>, \<open>loadCommitStats\<close>, \<open>syncRepos\<close> and
  the same guards in \<open>fetchIssues\<close> and \<open>refreshIssues\<close>; where it differs and a property
  below depends on it, its variant is given with the suffix \<open>_v0\<close>.
\<close>

subsection \<open>Data\<close>

type_synonym 'v js_object = "(string \<times> 'v) list"

record issue =
  issue_id :: int
  project_id :: int
  iid :: int
  title :: string
  issue_author :: "string option"
  assignee :: "string option"
  labels :: "string list"
  issue_state :: string
  category :: "string option"
  issue_note :: "string option"
  web_url :: string

record stat_row =
  author :: string
  week :: string
  commits :: nat

text \<open>\<open>Number(v)\<close> of a text typed by the user is kept symbolic: the script only stores
  these numbers and sends them back.\<close>

datatype jsnum = Number string

datatype message =
    EnterProjectIds
  | RepoSyncFailed
  | IssueFetchFailed
  | IssueRefreshFailed
  | NoIssueSelected
  | IssuesClosed
  | IssueCloseFailed
  | CommitStatsFailed

datatype param = Ids "jsnum list" | Text string

datatype request =
    PostRepos "jsnum list"
  | GetIssues "param js_object"
  | PostIssuesRefresh "jsnum list" bool
  | PostBulkClose "int list"
  | GetCommitStats "param js_object"

text \<open>A response is \<open>res.ok\<close> being false, or true together with the parsed body.\<close>

datatype 'a response = NotOk | Ok 'a

record issues_payload =
  resp_issues :: "issue list"
  resp_assignee_summary :: "nat js_object"

text \<open>
  A row of the table is built by assigning a template string, with the fields of the issue
  spliced in as they are, to \<open>tr.innerHTML\<close>. The row has its own check box, whose
  \<open>data-id\<close> is the issue's id (\<open>row_checked\<close>). Markup in a field can add further check
  boxes to the row: \<open>row_extra\<close> lists them in document order, each with the number that
  \<open>Number(cb.getAttribute('data-id'))\<close> yields for it (0 when it has no \<open>data-id\<close>) and
  whether it is ticked.
\<close>

record table_row =
  row_issue :: issue
  row_checked :: bool
  row_extra :: "(int \<times> bool) list"

datatype label_count = Count nat | Inherited_value

text \<open>
  The first six fields are the object \<open>state\<close>. The others are the page: the text of each
  input element by its id, the rows of \<open>#issue-table tbody\<close>, the \<open>select-all\<close> check box,
  the dashboard's outputs, and the two logs. Two fields stand for what is not part of the
  script. The page's markup: whether the \<open>select-all\<close> box lies inside \<open>#issue-table\<close> is
  \<open>select_all_in_table\<close>. The browser's HTML parser: \<open>browser_boxes i\<close> are the check boxes,
  beyond the row's own, that it finds in the row built from the issue \<open>i\<close>.
\<close>

record app_state =
  projectIds :: "jsnum list"
  issues :: "issue list"
  assigneeSummary :: "nat js_object"
  chart :: "(string list \<times> (string \<times> nat list) list) option"
  assigneeChart :: "(string list \<times> nat list) option"
  selectedAssignee :: "string option"
  input_value :: "string \<Rightarrow> string"
  table_rows :: "table_row list"
  select_all :: bool
  select_all_in_table :: bool
  browser_boxes :: "issue \<Rightarrow> (int \<times> bool) list"
  open_issue_count :: nat
  assignee_summary_view :: "nat js_object"
  assignee_filter_label :: "(string \<times> label_count) option"
  repo_list :: "(string \<times> int) list"
  toasts :: "message list"
  requests :: "request list"

subsection \<open>Helpers of the language\<close>

definition truthy :: "string option \<Rightarrow> bool" where
  "truthy v = (case v of None \<Rightarrow> False | Some t \<Rightarrow> t \<noteq> [])"

fun split_comma :: "string \<Rightarrow> string list" where
  "split_comma [] = [[]]"
| "split_comma (c # cs) =
     (if c = CHR '','' then [] # split_comma cs
      else (case split_comma cs of [] \<Rightarrow> [[c]] | w # ws \<Rightarrow> (c # w) # ws))"

text \<open>
  \<open>String.prototype.trim\<close> removes white space and line terminators from both ends: the
  code points 9 to 13 and 32, U+00A0, U+1680, U+2000 to U+200A, U+2028, U+2029, U+202F,
  U+205F, U+3000 and U+FEFF, here in their UTF-8 bytes. \<open>strip ws fuel v\<close> removes from the
  front of \<open>v\<close> one sequence of \<open>ws\<close> after the other, at most once for each element of
  \<open>fuel\<close>; with \<open>v\<close> itself as fuel it removes them all.
\<close>

definition white_space :: "string list" where
  "white_space =
     [[CHR 0x09], [CHR 0x0A], [CHR 0x0B], [CHR 0x0C], [CHR 0x0D], [CHR 0x20],
      [CHR 0xC2, CHR 0xA0], [CHR 0xE1, CHR 0x9A, CHR 0x80],
      [CHR 0xE2, CHR 0x80, CHR 0x80], [CHR 0xE2, CHR 0x80, CHR 0x81],
      [CHR 0xE2, CHR 0x80, CHR 0x82], [CHR 0xE2, CHR 0x80, CHR 0x83],
      [CHR 0xE2, CHR 0x80, CHR 0x84], [CHR 0xE2, CHR 0x80, CHR 0x85],
      [CHR 0xE2, CHR 0x80, CHR 0x86], [CHR 0xE2, CHR 0x80, CHR 0x87],
      [CHR 0xE2, CHR 0x80, CHR 0x88], [CHR 0xE2, CHR 0x80, CHR 0x89],
      [CHR 0xE2, CHR 0x80, CHR 0x8A], [CHR 0xE2, CHR 0x80, CHR 0xA8],
      [CHR 0xE2, CHR 0x80, CHR 0xA9], [CHR 0xE2, CHR 0x80, CHR 0xAF],
      [CHR 0xE2, CHR 0x81, CHR 0x9F], [CHR 0xE3, CHR 0x80, CHR 0x80],
      [CHR 0xEF, CHR 0xBB, CHR 0xBF]]"

fun strip :: "string list \<Rightarrow> 'a list \<Rightarrow> string \<Rightarrow> string" where
  "strip ws [] v = v"
| "strip ws (_ # fuel) v =
     (case find (\<lambda>w. take (length w) v = w) ws of
        None \<Rightarrow> v
      | Some w \<Rightarrow> strip ws fuel (drop (length w) v))"

definition trim :: "string \<Rightarrow> string" where
  "trim v =
     (let v1 = strip white_space v v
      in rev (strip (map rev white_space) v1 (rev v1)))"

text \<open>\<open>new Set(xs)\<close> followed by \<open>Array.from\<close>: the distinct elements in order of first
  occurrence.\<close>

fun set_add :: "'a list \<Rightarrow> 'a \<Rightarrow> 'a list" where
  "set_add seen x = (if x \<in> set seen then seen else seen @ [x])"

definition new_Set :: "'a list \<Rightarrow> 'a list" where
  "new_Set xs = foldl set_add [] xs"

text \<open>The names of the properties of \<open>Object.prototype\<close>. Each holds a function, except
  \<open>__proto__\<close>, which reads as the object's prototype: all of them are truthy.\<close>

definition object_prototype_names :: "string list" where
  "object_prototype_names =
     [''constructor'', ''__defineGetter__'', ''__defineSetter__'', ''hasOwnProperty'',
      ''__lookupGetter__'', ''__lookupSetter__'', ''isPrototypeOf'', ''propertyIsEnumerable'',
      ''toString'', ''valueOf'', ''__proto__'', ''toLocaleString'']"

text \<open>\<open>k in obj\<close> for an object \<open>obj\<close> with the own properties \<open>own\<close>, on the
  \<open>Object.prototype\<close> of a freshly loaded page.\<close>

definition js_in :: "string \<Rightarrow> 'v js_object \<Rightarrow> bool" where
  "js_in k own = (k \<in> set (map fst own) \<or> k \<in> set object_prototype_names)"

definition toast :: "message \<Rightarrow> app_state \<Rightarrow> app_state" where
  "toast m s = s\<lparr>toasts := toasts s @ [m]\<rparr>"

definition fetch :: "request \<Rightarrow> app_state \<Rightarrow> app_state" where
  "fetch r s = s\<lparr>requests := requests s @ [r]\<rparr>"

subsection \<open>\<open>renderCommitChart\<close>: grouping commit rows by author and week\<close>

text \<open>
  The loop works on two objects: \<open>grouped\<close>, given by its own properties, and
  \<open>Object.prototype\<close>, given by the properties the loop has added to it. \<open>inherited proto k\<close>
  says that \<open>k\<close> is found on \<open>Object.prototype\<close>.
\<close>

definition inherited :: "stat_row js_object \<Rightarrow> string \<Rightarrow> bool" where
  "inherited proto k = (k \<in> set object_prototype_names \<or> k \<in> set (map fst proto))"

text \<open>
  One turn of the \<open>forEach\<close>.
  \<open>if (!grouped[row.author]) grouped[row.author] = {}\<close>: the test reads an own property or
  an inherited one, and every value it can find is truthy, so an author's object is created
  only when the author is neither an own key nor an inherited name.
  \<open>grouped[row.author][row.week] = row\<close>: the row goes to the author's own object when there
  is one. Otherwise \<open>grouped[row.author]\<close> is an inherited value: for the author \<open>__proto__\<close>
  it is \<open>Object.prototype\<close> itself, which receives the row; for any other inherited name it
  is a function, or a row stored on \<open>Object.prototype\<close> earlier, and the row stored on it is
  not seen again by the reads below. (What such a row does to the function or row it is
  stored on is not followed further, nor is the \<open>TypeError\<close> raised by a row whose author
  and week are both \<open>__proto__\<close>.)
\<close>

definition group_row ::
  "stat_row js_object js_object \<times> stat_row js_object \<Rightarrow> stat_row \<Rightarrow>
   stat_row js_object js_object \<times> stat_row js_object" where
  "group_row gp row =
     (let (grouped, proto) = gp;
          grouped1 = (if map_of grouped (author row) = None \<and> \<not> inherited proto (author row)
                      then AList.update (author row) [] grouped
                      else grouped)
      in case map_of grouped1 (author row) of
           Some _ \<Rightarrow>
             (AList.map_entry (author row) (AList.update (week row) row) grouped1, proto)
         | None \<Rightarrow>
             if author row = ''__proto__''
             then (grouped1, AList.update (week row) row proto)
             else (grouped1, proto))"

definition group_stats ::
  "stat_row list \<Rightarrow> stat_row js_object js_object \<times> stat_row js_object" where
  "group_stats stats = foldl group_row ([], []) stats"

definition chart_weeks :: "stat_row list \<Rightarrow> string list" where
  "chart_weeks stats = sort (new_Set (map week stats))"

text \<open>
  \<open>weeks.map((w) => values[w]?.commits || 0)\<close>: \<open>values[w]\<close> is the own property, or else
  what \<open>Object.prototype\<close> holds under \<open>w\<close>: a row the loop has stored there, whose count is
  then read, or one of the functions, which has no \<open>commits\<close> (one that it would inherit
  from a row stored under the name \<open>commits\<close> is not followed).
\<close>

definition series_data ::
  "stat_row js_object \<Rightarrow> string list \<Rightarrow> stat_row js_object \<Rightarrow> nat list" where
  "series_data proto weeks vals =
     map (\<lambda>w. case (case map_of vals w of Some r \<Rightarrow> Some r | None \<Rightarrow> map_of proto w) of
                 None \<Rightarrow> 0
               | Some r \<Rightarrow> (if commits r = 0 then 0 else commits r)) weeks"

text \<open>The data sets of the chart, as pairs of \<open>label\<close> and \<open>data\<close>, one for each own
  property of \<open>grouped\<close>; the colours and line widths, which are constants or depend on the
  position only, are left out.\<close>

definition chart_datasets :: "stat_row list \<Rightarrow> (string \<times> nat list) list" where
  "chart_datasets stats =
     (let (grouped, proto) = group_stats stats
      in map (\<lambda>(a, vals). (a, series_data proto (chart_weeks stats) vals)) grouped)"

definition renderCommitChart :: "stat_row list \<Rightarrow> app_state \<Rightarrow> app_state" where
  "renderCommitChart stats s = s\<lparr>chart := Some (chart_weeks stats, chart_datasets stats)\<rparr>"

subsection \<open>Project ids and query parameters\<close>

definition getProjectIds :: "app_state \<Rightarrow> jsnum list \<times> app_state" where
  "getProjectIds s =
     (let ids = map Number
                  (filter (\<lambda>v. v \<noteq> []) (map trim (split_comma (input_value s ''project-ids''))))
      in (ids, s\<lparr>projectIds := ids\<rparr>))"

definition set_if_nonempty :: "string \<Rightarrow> string \<Rightarrow> param js_object \<Rightarrow> param js_object" where
  "set_if_nonempty k v params = (if v \<noteq> [] then AList.update k (Text v) params else params)"

definition buildQueryParams :: "app_state \<Rightarrow> param js_object \<times> app_state" where
  "buildQueryParams s =
     (let (projectIds, s1) = getProjectIds s;
          params = AList.update ''project_ids'' (Ids projectIds) [];
          q = trim (input_value s1 ''search-text'');
          author = trim (input_value s1 ''search-author'');
          assignee = trim (input_value s1 ''search-assignee'');
          label = trim (input_value s1 ''search-label'');
          category = trim (input_value s1 ''search-category'');
          note = trim (input_value s1 ''search-note'')
      in (set_if_nonempty ''note'' note
           (set_if_nonempty ''category'' category
             (set_if_nonempty ''label'' label
               (set_if_nonempty ''assignee'' assignee
                 (set_if_nonempty ''author'' author
                   (set_if_nonempty ''query'' q params))))), s1))"

subsection \<open>Rendering the issue table and the dashboard\<close>

text \<open>\<open>issue.assignee || 'Unassigned'\<close>\<close>

definition assignee_or_unassigned :: "issue \<Rightarrow> string" where
  "assignee_or_unassigned i =
     (case assignee i of
        None \<Rightarrow> ''Unassigned''
      | Some a \<Rightarrow> if a = [] then ''Unassigned'' else a)"

text \<open>
  The template puts a text field between tags, inside double quotes or inside a
  \<open>textarea\<close>. A field without \<open><\<close> and without a double quote cannot leave its place:
  the row built from an issue whose text fields are all such has its own check box only.
  For any other issue the check boxes of the row are what the browser finds.
\<close>

definition plain_text :: "string \<Rightarrow> bool" where
  "plain_text t = (CHR ''<'' \<notin> set t \<and> CHR 0x22 \<notin> set t)"

definition or_empty :: "string option \<Rightarrow> string" where
  "or_empty v = (case v of None \<Rightarrow> [] | Some t \<Rightarrow> t)"

definition no_markup :: "issue \<Rightarrow> bool" where
  "no_markup i =
     (plain_text (title i) \<and> plain_text (or_empty (issue_author i)) \<and>
      plain_text (or_empty (assignee i)) \<and> list_all plain_text (labels i) \<and>
      plain_text (issue_state i) \<and> plain_text (or_empty (category i)) \<and>
      plain_text (or_empty (issue_note i)) \<and> plain_text (web_url i))"

definition build_row :: "app_state \<Rightarrow> issue \<Rightarrow> table_row" where
  "build_row s i =
     \<lparr>row_issue = i, row_checked = False,
      row_extra = (if no_markup i then [] else browser_boxes s i)\<rparr>"

definition renderIssues :: "app_state \<Rightarrow> app_state" where
  "renderIssues s =
     (let filteredIssues =
            (case selectedAssignee s of
               None \<Rightarrow> issues s
             | Some sel \<Rightarrow>
                 if sel = [] then issues s
                 else filter (\<lambda>i. assignee_or_unassigned i = sel) (issues s))
      in s\<lparr>table_rows := map (build_row s) filteredIssues,
            select_all := False\<rparr>)"

definition renderAssigneeSummary :: "app_state \<Rightarrow> app_state" where
  "renderAssigneeSummary s = s\<lparr>assignee_summary_view := assigneeSummary s\<rparr>"

definition renderAssigneeChart :: "app_state \<Rightarrow> app_state" where
  "renderAssigneeChart s =
     (let labels = map fst (assigneeSummary s);
          data = map (\<lambda>name. the (map_of (assigneeSummary s) name)) labels
      in if labels = [] then s\<lparr>assigneeChart := None\<rparr>
         else s\<lparr>assigneeChart := Some (labels, data)\<rparr>)"

definition updateFilterLabel :: "app_state \<Rightarrow> app_state" where
  "updateFilterLabel s =
     (case selectedAssignee s of
        None \<Rightarrow> s\<lparr>assignee_filter_label := None\<rparr>
      | Some sel \<Rightarrow>
          if sel = [] then s\<lparr>assignee_filter_label := None\<rparr>
          else (let count = (case map_of (assigneeSummary s) sel of
                               Some c \<Rightarrow> Count c
                             | None \<Rightarrow>
                                 if sel \<in> set object_prototype_names then Inherited_value
                                 else Count 0)
                in s\<lparr>assignee_filter_label := Some (sel, count)\<rparr>))"

definition renderDashboard :: "app_state \<Rightarrow> app_state" where
  "renderDashboard s =
     (let s1 = (case selectedAssignee s of
                  None \<Rightarrow> s
                | Some sel \<Rightarrow>
                    if sel \<noteq> [] \<and> \<not> js_in sel (assigneeSummary s)
                    then s\<lparr>selectedAssignee := None\<rparr> else s);
          s2 = s1\<lparr>open_issue_count := length (issues s1)\<rparr>
      in updateFilterLabel (renderAssigneeChart (renderAssigneeSummary s2)))"

definition toggleAssigneeFilter :: "string option \<Rightarrow> app_state \<Rightarrow> app_state" where
  "toggleAssigneeFilter name s =
     renderIssues (renderDashboard
       (s\<lparr>selectedAssignee :=
            (if selectedAssignee s = name \<or> \<not> truthy name then None else name)\<rparr>))"

subsection \<open>The operations that call the backend\<close>

definition syncRepos :: "(string \<times> int) list response \<Rightarrow> app_state \<Rightarrow> app_state" where
  "syncRepos res s =
     (let (projectIds, s1) = getProjectIds s
      in if projectIds = [] then toast EnterProjectIds s1
         else (let s2 = fetch (PostRepos projectIds) s1
               in case res of
                    NotOk \<Rightarrow> toast RepoSyncFailed s2
                  | Ok repos \<Rightarrow> s2\<lparr>repo_list := repos\<rparr>))"

definition fetchIssues :: "bool \<Rightarrow> issues_payload response \<Rightarrow> app_state \<Rightarrow> app_state" where
  "fetchIssues applyFilter res s =
     (let (projectIds, s1) = getProjectIds s
      in if projectIds = [] then toast EnterProjectIds s1
         else (let (params, s2) =
                     (if applyFilter then buildQueryParams s1
                      else ([(''project_ids'', Ids projectIds)], s1));
                   s3 = fetch (GetIssues params) s2
               in case res of
                    NotOk \<Rightarrow> toast IssueFetchFailed s3
                  | Ok data \<Rightarrow>
                      renderDashboard (renderIssues
                        (s3\<lparr>issues := resp_issues data,
                            assigneeSummary := resp_assignee_summary data\<rparr>))))"

definition refreshIssues :: "issues_payload response \<Rightarrow> app_state \<Rightarrow> app_state" where
  "refreshIssues res s =
     (let (projectIds, s1) = getProjectIds s
      in if projectIds = [] then toast EnterProjectIds s1
         else (let s2 = fetch (PostIssuesRefresh projectIds True) s1
               in case res of
                    NotOk \<Rightarrow> toast IssueRefreshFailed s2
                  | Ok data \<Rightarrow>
                      renderDashboard (renderIssues
                        (s2\<lparr>issues := resp_issues data,
                            assigneeSummary := resp_assignee_summary data\<rparr>))))"

text \<open>The earlier copy: \<open>renderIssues\<close> lists every issue and writes the summary line; there
  is no dashboard.\<close>

definition renderIssues_v0 :: "app_state \<Rightarrow> app_state" where
  "renderIssues_v0 s =
     s\<lparr>table_rows := map (build_row s) (issues s),
       assignee_summary_view := assigneeSummary s\<rparr>"

definition refreshIssues_v0 :: "issues_payload response \<Rightarrow> app_state \<Rightarrow> app_state" where
  "refreshIssues_v0 res s =
     (let (projectIds, s1) = getProjectIds s
      in if projectIds = [] then toast EnterProjectIds s1
         else (let s2 = fetch (PostIssuesRefresh projectIds True) s1
               in case res of
                    NotOk \<Rightarrow> toast IssueRefreshFailed s2
                  | Ok data \<Rightarrow>
                      renderIssues_v0
                        (s2\<lparr>issues := resp_issues data,
                            assigneeSummary := resp_assignee_summary data\<rparr>)))"

text \<open>
  \<open>document.querySelectorAll('#issue-table input[type="checkbox"]:checked')\<close>, mapped to
  \<open>Number(cb.getAttribute('data-id'))\<close>: for every row in table order, the issue's id when
  the row's own box is ticked, then the numbers of the ticked boxes that markup has added.
  The \<open>select-all\<close> box has no \<open>data-id\<close>; when it lies inside the table (before the body)
  and is checked, it contributes \<open>Number(null)\<close>, which is 0.
\<close>

definition row_checked_ids :: "table_row \<Rightarrow> int list" where
  "row_checked_ids r =
     (if row_checked r then [issue_id (row_issue r)] else []) @
     map fst (filter snd (row_extra r))"

definition checked_ids :: "app_state \<Rightarrow> int list" where
  "checked_ids s =
     (if select_all_in_table s \<and> select_all s then [0] else []) @
     concat (map row_checked_ids (table_rows s))"

definition closeSelectedIssues ::
  "unit response \<Rightarrow> issues_payload response \<Rightarrow> app_state \<Rightarrow> app_state" where
  "closeSelectedIssues res fetch_res s =
     (let checked = checked_ids s
      in if checked = [] then toast NoIssueSelected s
         else (let s1 = fetch (PostBulkClose checked) s
               in case res of
                    Ok _ \<Rightarrow> fetchIssues True fetch_res (toast IssuesClosed s1)
                  | NotOk \<Rightarrow> toast IssueCloseFailed s1))"

definition loadCommitStats :: "stat_row list response \<Rightarrow> app_state \<Rightarrow> app_state" where
  "loadCommitStats res s =
     (let (projectIds, s1) = getProjectIds s
      in if projectIds = [] then s1
         else (let s2 = fetch (GetCommitStats [(''project_ids'', Ids projectIds)]) s1
               in case res of
                    NotOk \<Rightarrow> toast CommitStatsFailed s2
                  | Ok stats \<Rightarrow> renderCommitChart stats s2))"

subsection \<open>Reading the grouped rows back\<close>

text \<open>The own keys of an object, \<open>grouped[a][w]\<close> as an own property, and the last row of
  the input with a given author and week.\<close>

definition own_keys :: "'v js_object \<Rightarrow> string set" where
  "own_keys g = set (map fst g)"

definition lookup2 ::
  "stat_row js_object js_object \<Rightarrow> string \<Rightarrow> string \<Rightarrow> stat_row option" where
  "lookup2 g a w = (case map_of g a of None \<Rightarrow> None | Some vals \<Rightarrow> map_of vals w)"

definition last_row :: "stat_row list \<Rightarrow> string \<Rightarrow> string \<Rightarrow> stat_row option" where
  "last_row stats a w =
     (case filter (\<lambda>r. author r = a \<and> week r = w) stats of
        [] \<Rightarrow> None
      | r # rs \<Rightarrow> Some (last (r # rs)))"

subsection \<open>Example inputs\<close>

definition zero_fill_stats :: "stat_row list" where
  "zero_fill_stats =
     [\<lparr>author = ''alice'', week = ''W1'', commits = 3\<rparr>,
      \<lparr>author = ''bob'', week = ''W2'', commits = 5\<rparr>]"

definition dup_stats :: "stat_row list" where
  "dup_stats =
     [\<lparr>author = ''alice'', week = ''W1'', commits = 3\<rparr>,
      \<lparr>author = ''alice'', week = ''W1'', commits = 5\<rparr>]"

definition inherited_author_stats :: "stat_row list" where
  "inherited_author_stats = [\<lparr>author = ''constructor'', week = ''W1'', commits = 3\<rparr>]"

definition proto_author_stats :: "stat_row list" where
  "proto_author_stats =
     [\<lparr>author = ''__proto__'', week = ''W1'', commits = 3\<rparr>,
      \<lparr>author = ''bob'', week = ''W2'', commits = 5\<rparr>]"

subsection \<open>The operations as the specification words them\<close>

text \<open>
  \<open>mergeIncremental\<close> in the words of the specification: an incoming record whose id is in
  the cache replaces that entry in place, except that the entry's category and note are
  kept; an incoming record with a new id is appended.
\<close>

fun spec_merge_one :: "issue list \<Rightarrow> issue \<Rightarrow> issue list" where
  "spec_merge_one [] inc = [inc]"
| "spec_merge_one (c # cache) inc =
     (if issue_id c = issue_id inc
      then inc\<lparr>category := category c, issue_note := issue_note c\<rparr> # cache
      else c # spec_merge_one cache inc)"

definition spec_mergeIncremental :: "issue list \<Rightarrow> issue list \<Rightarrow> issue list" where
  "spec_mergeIncremental cache records = foldl spec_merge_one cache records"

text \<open>
  The quick filter in the words of the specification: the issues whose assignee, or
  \<open>Unassigned\<close> when the assignee is absent, equals the filter value.
\<close>

definition spec_quick_filter :: "string \<Rightarrow> issue list \<Rightarrow> issue list" where
  "spec_quick_filter f cache =
     filter (\<lambda>i. (case assignee i of None \<Rightarrow> ''Unassigned'' | Some a \<Rightarrow> a) = f) cache"

subsection \<open>Abbreviations for the inputs of a request\<close>

text \<open>The id list \<open>getProjectIds\<close> returns, the parameters \<open>buildQueryParams\<close> returns, and
  the parameters \<open>fetchIssues\<close> sends.\<close>

definition project_ids_of :: "app_state \<Rightarrow> jsnum list" where
  "project_ids_of s = fst (getProjectIds s)"

definition query_params :: "app_state \<Rightarrow> param js_object" where
  "query_params s = fst (buildQueryParams s)"

definition issues_params :: "bool \<Rightarrow> app_state \<Rightarrow> param js_object" where
  "issues_params applyFilter s =
     (if applyFilter then query_params s else [(''project_ids'', Ids (project_ids_of s))])"

subsection \<open>Example states\<close>

text \<open>
  \<open>initial_state\<close> is the script's \<open>state\<close> as declared, on a page with empty inputs and an
  empty table. \<open>loaded_state\<close> has one cached issue, annotated \<open>bug\<close> / \<open>x\<close> and checked in
  the table, and project id 10 typed in; \<open>refresh_payload\<close> is a response carrying the same
  issue with empty category and note.
\<close>

definition initial_state :: app_state where
  "initial_state =
     \<lparr>projectIds = [], issues = [], assigneeSummary = [], chart = None, assigneeChart = None,
      selectedAssignee = None, input_value = (\<lambda>_. []), table_rows = [], select_all = False,
      select_all_in_table = False, browser_boxes = (\<lambda>_. []), open_issue_count = 0,
      assignee_summary_view = [],
      assignee_filter_label = None, repo_list = [], toasts = [], requests = []\<rparr>"

definition issue_cached :: issue where
  "issue_cached =
     \<lparr>issue_id = 1, project_id = 10, iid = 7, title = ''Crash'', issue_author = Some ''kim'',
      assignee = Some ''lee'', labels = [], issue_state = ''opened'', category = Some ''bug'',
      issue_note = Some ''x'', web_url = ''u''\<rparr>"

definition issue_incoming :: issue where
  "issue_incoming = issue_cached\<lparr>category := Some [], issue_note := Some []\<rparr>"

definition issue_empty_assignee :: issue where
  "issue_empty_assignee = issue_cached\<lparr>assignee := Some []\<rparr>"

definition loaded_state :: app_state where
  "loaded_state =
     initial_state
       \<lparr>projectIds := [Number ''10''], issues := [issue_cached],
        assigneeSummary := [(''lee'', 1)],
        input_value := (\<lambda>_. [])(''project-ids'' := ''10''),
        table_rows := [\<lparr>row_issue = issue_cached, row_checked = True, row_extra = []\<rparr>]\<rparr>"

definition refresh_payload :: issues_payload where
  "refresh_payload = \<lparr>resp_issues = [issue_incoming], resp_assignee_summary = [(''lee'', 1)]\<rparr>"

definition unassigned_state :: app_state where
  "unassigned_state =
     initial_state\<lparr>issues := [issue_empty_assignee, issue_cached],
                   assigneeSummary := [(''Unassigned'', 1), (''lee'', 1)],
                   selectedAssignee := Some ''Unassigned''\<rparr>"

definition stale_filter_state :: app_state where
  "stale_filter_state = loaded_state\<lparr>selectedAssignee := Some ''kim''\<rparr>"

text \<open>
  An assignee whose name is \<open>constructor\<close>: a response that lists one open issue of theirs,
  and the state reached from \<open>loaded_state\<close> by fetching that response, clicking the
  assignee's badge, and fetching \<open>refresh_payload\<close>, in which they have no issue left.
\<close>

definition constructor_payload :: issues_payload where
  "constructor_payload =
     \<lparr>resp_issues = [issue_cached\<lparr>assignee := Some ''constructor''\<rparr>],
      resp_assignee_summary = [(''constructor'', 1)]\<rparr>"

definition constructor_selected_state :: app_state where
  "constructor_selected_state =
     toggleAssigneeFilter (Some ''constructor'')
       (fetchIssues False (Ok constructor_payload) loaded_state)"

definition constructor_gone_state :: app_state where
  "constructor_gone_state = fetchIssues False (Ok refresh_payload) constructor_selected_state"

text \<open>
  An issue whose title is the text of a ticked check box, and a page on which the browser
  finds that box (ticked, without \<open>data-id\<close>) in the row built from such an issue.
\<close>

definition markup_issue :: issue where
  "markup_issue = issue_cached\<lparr>issue_id := 2, title := ''<input type=checkbox checked>''\<rparr>"

definition markup_payload :: issues_payload where
  "markup_payload = \<lparr>resp_issues = [markup_issue], resp_assignee_summary = [(''lee'', 1)]\<rparr>"

definition markup_page :: app_state where
  "markup_page =
     loaded_state
       \<lparr>browser_boxes :=
          (\<lambda>i. if title i = ''<input type=checkbox checked>'' then [(0, True)] else [])\<rparr>"

section \<open>Properties of the commit chart's grouping\<close>

lemma set_foldl_set_add: "set (foldl set_add acc xs) = set acc \<union> set xs"
  by (induction xs arbitrary: acc) auto

lemma distinct_foldl_set_add: "distinct acc \<Longrightarrow> distinct (foldl set_add acc xs)"
  by (induction xs arbitrary: acc) auto

lemma set_new_Set: "set (new_Set xs) = set xs"
  by (simp add: new_Set_def set_foldl_set_add)

lemma distinct_new_Set: "distinct (new_Set xs)"
  by (simp add: new_Set_def distinct_foldl_set_add)

lemma own_keys_simps [simp]:
  "own_keys [] = {}"
  "own_keys (g @ [(k, v)]) = insert k (own_keys g)"
  "own_keys (AList.map_entry k f g) = own_keys g"
  "own_keys (AList.update k v g) = insert k (own_keys g)"
  using AList.dom_map_entry[of k f g] AList.dom_update[of k v g]
  by (auto simp: own_keys_def)

lemma map_of_own_keys: "map_of g k = None \<longleftrightarrow> k \<notin> own_keys g"
  by (simp add: own_keys_def map_of_eq_None_iff)

lemma inherited_update [simp]: "inherited p k \<Longrightarrow> inherited (AList.update w r p) k"
  using AList.dom_update[of w r p] by (auto simp: inherited_def)

text \<open>One turn of the loop, case by case.\<close>

lemma group_row_own:
  "map_of g (author r) = Some v \<Longrightarrow>
   group_row (g, p) r = (AList.map_entry (author r) (AList.update (week r) r) g, p)"
  by (simp add: group_row_def)

lemma group_row_new:
  "map_of g (author r) = None \<Longrightarrow> \<not> inherited p (author r) \<Longrightarrow>
   group_row (g, p) r = (g @ [(author r, [(week r, r)])], p)"
proof -
  assume n: "map_of g (author r) = None" and i: "\<not> inherited p (author r)"
  have u: "AList.update (author r) v g = g @ [(author r, v)]" for v
    using n by (induction g) (auto split: if_splits)
  have m: "AList.map_entry (author r) f (g @ [(author r, v)]) = g @ [(author r, f v)]" for f v
    using n by (induction g) (auto split: if_splits)
  show ?thesis
    using n i by (simp add: group_row_def Let_def AList.update_conv') (simp add: u m)
qed

lemma group_row_inherited:
  "map_of g (author r) = None \<Longrightarrow> inherited p (author r) \<Longrightarrow>
   group_row (g, p) r =
     (g, if author r = ''__proto__'' then AList.update (week r) r p else p)"
  by (simp add: group_row_def)

lemma group_row_cases:
  obtains (own) v where "map_of g (author r) = Some v" "author r \<in> own_keys g"
      "group_row (g, p) r = (AList.map_entry (author r) (AList.update (week r) r) g, p)"
  | (new) "map_of g (author r) = None" "author r \<notin> own_keys g" "\<not> inherited p (author r)"
      "group_row (g, p) r = (g @ [(author r, [(week r, r)])], p)"
  | (inh) "map_of g (author r) = None" "author r \<notin> own_keys g" "inherited p (author r)"
      "group_row (g, p) r =
         (g, if author r = ''__proto__'' then AList.update (week r) r p else p)"
proof (cases "map_of g (author r)")
  case None
  then have k: "author r \<notin> own_keys g" by (simp add: map_of_own_keys)
  show ?thesis
  proof (cases "inherited p (author r)")
    case True
    then show ?thesis using None k group_row_inherited[of g r p] inh by blast
  next
    case False
    then show ?thesis using None k group_row_new[of g r p] new by blast
  qed
next
  case (Some v)
  then have "author r \<in> own_keys g" using map_of_own_keys[of g "author r"] by simp
  then show ?thesis using Some group_row_own[of g r v p] own by blast
qed

lemma group_row_keys:
  "own_keys (fst (group_row (g, p) r)) =
     (if author r \<in> own_keys g \<or> inherited p (author r) then own_keys g
      else insert (author r) (own_keys g))"
  by (cases rule: group_row_cases[of g r p]) auto

lemma group_row_inherited_mono:
  "inherited p k \<Longrightarrow> inherited (snd (group_row (g, p) r)) k"
  by (cases rule: group_row_cases[of g r p]) auto

lemma foldl_no_key:
  "a \<notin> own_keys g \<Longrightarrow> inherited p a \<Longrightarrow>
   a \<notin> own_keys (fst (foldl group_row (g, p) stats))"
proof (induction stats arbitrary: g p)
  case Nil
  then show ?case by simp
next
  case (Cons r stats)
  obtain g1 p1 where s: "group_row (g, p) r = (g1, p1)" by (cases "group_row (g, p) r")
  have "a \<notin> own_keys g1"
    using Cons.prems group_row_keys[of g p r] s by (auto split: if_splits)
  moreover have "inherited p1 a" using group_row_inherited_mono[OF Cons.prems(2), of g r] s by simp
  ultimately show ?case using Cons.IH[of g1 p1] s by simp
qed

lemma distinct_group_row:
  "distinct (map fst g) \<Longrightarrow> distinct (map fst (fst (group_row (g, p) r)))"
  by (cases rule: group_row_cases[of g r p])
     (auto simp: AList.distinct_map_entry own_keys_def)

lemma distinct_foldl_group_row:
  "distinct (map fst g) \<Longrightarrow> distinct (map fst (fst (foldl group_row (g, p) stats)))"
proof (induction stats arbitrary: g p)
  case Nil
  then show ?case by simp
next
  case (Cons r stats)
  obtain g1 p1 where s: "group_row (g, p) r = (g1, p1)" by (cases "group_row (g, p) r")
  have "distinct (map fst g1)" using distinct_group_row[OF Cons.prems, of p r] s by simp
  then show ?case using Cons.IH[of g1 p1] s by simp
qed

lemma last_row_Nil: "last_row [] a w = None"
  by (simp add: last_row_def)

lemma last_row_Cons:
  "last_row (r # stats) a w =
     (case last_row stats a w of
        None \<Rightarrow> (if author r = a \<and> week r = w then Some r else None)
      | Some r' \<Rightarrow> Some r')"
  by (simp add: last_row_def split: list.splits)

lemma lookup2_no_key: "a \<notin> own_keys g \<Longrightarrow> lookup2 g a w = None"
  by (simp add: lookup2_def map_of_own_keys[symmetric])

text \<open>For an author who has an object in the end, every row of the author went to it.\<close>

lemma lookup2_group_row:
  assumes "a \<in> own_keys (fst (group_row (g, p) r))"
  shows "lookup2 (fst (group_row (g, p) r)) a w =
           (if a = author r \<and> w = week r then Some r else lookup2 g a w)"
proof (cases rule: group_row_cases[of g r p])
  case (own v)
  then show ?thesis
    by (auto simp: lookup2_def AList.map_of_map_entry AList.update_conv' split: option.splits)
next
  case new
  then show ?thesis
    by (auto simp: lookup2_def map_of_append split: option.splits)
next
  case inh
  then show ?thesis using assms by auto
qed

lemma lookup2_foldl:
  assumes "a \<in> own_keys (fst (foldl group_row (g, p) stats))"
  shows "lookup2 (fst (foldl group_row (g, p) stats)) a w =
           (case last_row stats a w of None \<Rightarrow> lookup2 g a w | Some r \<Rightarrow> Some r)"
  using assms
proof (induction stats arbitrary: g p)
  case Nil
  show ?case by (simp add: last_row_Nil)
next
  case (Cons r stats)
  obtain g1 p1 where s: "group_row (g, p) r = (g1, p1)" by (cases "group_row (g, p) r")
  from Cons.prems s have fin: "a \<in> own_keys (fst (foldl group_row (g1, p1) stats))" by simp
  have ih: "lookup2 (fst (foldl group_row (g1, p1) stats)) a w =
              (case last_row stats a w of None \<Rightarrow> lookup2 g1 a w | Some r \<Rightarrow> Some r)"
    by (rule Cons.IH[OF fin])
  have step: "lookup2 g1 a w = (if a = author r \<and> w = week r then Some r else lookup2 g a w)"
  proof (cases "a \<in> own_keys g1")
    case True
    then show ?thesis using lookup2_group_row[of a g p r w] s by simp
  next
    case False
    then have g: "a \<notin> own_keys g"
      using group_row_keys[of g p r] s by (auto split: if_splits)
    have "a \<noteq> author r"
    proof
      assume e: "a = author r"
      then have "inherited p a"
        using False g group_row_keys[of g p r] s by (auto split: if_splits)
      then have "inherited p1 a"
        using group_row_inherited_mono[of p a g r] s by simp
      then show False using foldl_no_key[OF False, of p1 stats] fin by simp
    qed
    then show ?thesis using False g by (simp add: lookup2_no_key)
  qed
  show ?case
    using ih step s by (cases "last_row stats a w") (simp_all add: last_row_Cons)
qed


lemma last_row_None:
  "last_row stats a w = None \<longleftrightarrow> \<not> (\<exists>r \<in> set stats. author r = a \<and> week r = w)"
proof -
  have "last_row stats a w = None \<longleftrightarrow> filter (\<lambda>r. author r = a \<and> week r = w) stats = []"
    by (simp add: last_row_def split: list.splits)
  then show ?thesis by (simp add: filter_empty_conv)
qed

lemma last_row_Some:
  "last_row stats a w = Some r \<Longrightarrow> r \<in> set stats \<and> author r = a \<and> week r = w"
proof -
  assume "last_row stats a w = Some r"
  then have "filter (\<lambda>r. author r = a \<and> week r = w) stats \<noteq> []"
    and "r = last (filter (\<lambda>r. author r = a \<and> week r = w) stats)"
    by (auto simp: last_row_def split: list.splits)
  then have "r \<in> set (filter (\<lambda>r. author r = a \<and> week r = w) stats)"
    using last_in_set by blast
  then show ?thesis by simp
qed

lemma last_row_append:
  assumes "author r = a" "week r = w" "\<forall>r' \<in> set post. \<not> (author r' = a \<and> week r' = w)"
  shows "last_row (pre @ r # post) a w = Some r"
proof -
  have "filter (\<lambda>r. author r = a \<and> week r = w) post = []"
    using assms(3) by (simp add: filter_empty_conv)
  then have "filter (\<lambda>r. author r = a \<and> week r = w) (pre @ r # post) =
             filter (\<lambda>r. author r = a \<and> week r = w) pre @ [r]"
    using assms(1,2) by simp
  moreover have "(case xs @ [r] of [] \<Rightarrow> None | y # ys \<Rightarrow> Some (last (y # ys))) = Some r"
    for xs :: "stat_row list"
    by (cases xs) simp_all
  ultimately show ?thesis
    by (simp add: last_row_def)
qed

lemma group_stats_entry:
  assumes "(a, vals) \<in> set (fst (group_stats stats))"
  shows "map_of vals w = last_row stats a w"
proof -
  have "distinct (map fst (fst (group_stats stats)))"
    by (simp add: group_stats_def distinct_foldl_group_row)
  then have m: "map_of (fst (group_stats stats)) a = Some vals"
    using assms by simp
  have k: "a \<in> own_keys (fst (foldl group_row ([], []) stats))"
    using assms by (force simp: own_keys_def group_stats_def)
  have "map_of vals w = lookup2 (fst (group_stats stats)) a w"
    using m by (simp add: lookup2_def)
  also have "\<dots> = (case last_row stats a w of None \<Rightarrow> lookup2 [] a w | Some r \<Rightarrow> Some r)"
    unfolding group_stats_def by (rule lookup2_foldl[OF k])
  also have "\<dots> = last_row stats a w"
    by (cases "last_row stats a w") (simp_all add: lookup2_def)
  finally show ?thesis .
qed

lemma chart_datasets_entry:
  assumes "(a, d) \<in> set (chart_datasets stats)"
  shows "d = map (\<lambda>w. case last_row stats a w of
                        Some r \<Rightarrow> commits r
                      | None \<Rightarrow> (case map_of (snd (group_stats stats)) w of
                                   None \<Rightarrow> 0 | Some r \<Rightarrow> commits r))
               (chart_weeks stats)"
proof -
  from assms obtain vals where v: "(a, vals) \<in> set (fst (group_stats stats))"
    and d: "d = series_data (snd (group_stats stats)) (chart_weeks stats) vals"
    by (auto simp: chart_datasets_def case_prod_unfold Let_def)
  show ?thesis
    unfolding d series_data_def
    by (rule map_cong) (auto simp: group_stats_entry[OF v] split: option.splits)
qed

lemma chart_datasets_keys: "map fst (chart_datasets stats) = map fst (fst (group_stats stats))"
  by (simp add: chart_datasets_def case_prod_unfold comp_def Let_def)

lemma zero_fill_eval:
  "chart_weeks zero_fill_stats = [''W1'', ''W2'']"
  "chart_datasets zero_fill_stats = [(''alice'', [3, 0]), (''bob'', [0, 5])]"
  by (simp_all add: chart_datasets_def chart_weeks_def zero_fill_stats_def new_Set_def
      group_stats_def group_row_def series_data_def inherited_def object_prototype_names_def)

lemma dup_eval:
  "chart_weeks dup_stats = [''W1'']"
  "chart_datasets dup_stats = [(''alice'', [5])]"
  by (simp_all add: chart_datasets_def chart_weeks_def dup_stats_def new_Set_def
      group_stats_def group_row_def series_data_def inherited_def object_prototype_names_def)

text \<open>
  When no author bears a name that every object inherits, nothing is stored on
  \<open>Object.prototype\<close> and every author gets an object. The chart then is what C2 describes:
  the distinct weeks in ascending order, one series for each distinct author, aligned to
  the weeks, whose entry is the commit count of a row of that author and week when the
  input has one, and 0 when it has none.
\<close>

lemma foldl_ordinary_authors:
  assumes "\<forall>r \<in> set stats. author r \<notin> set object_prototype_names"
  shows "snd (foldl group_row (g, []) stats) = [] \<and>
         own_keys (fst (foldl group_row (g, []) stats)) = own_keys g \<union> author ` set stats"
  using assms
proof (induction stats arbitrary: g)
  case Nil
  then show ?case by simp
next
  case (Cons r stats)
  have a: "author r \<notin> set object_prototype_names" using Cons.prems by simp
  then have n: "author r \<noteq> ''__proto__''" by (auto simp: object_prototype_names_def)
  have i: "\<not> inherited [] (author r)" using a by (simp add: inherited_def)
  obtain g1 where s: "group_row (g, []) r = (g1, [])"
    using i n by (cases rule: group_row_cases[of g r "[]"]) auto
  have k: "own_keys g1 = insert (author r) (own_keys g)"
    using group_row_keys[of g "[]" r] s i by auto
  show ?case using Cons.IH[of g1] Cons.prems s k by simp
qed

lemma renderCommitChart_bucketize_ordinary_authors:
  assumes "\<forall>r \<in> set stats. author r \<notin> set object_prototype_names"
  shows "sorted (chart_weeks stats) \<and> distinct (chart_weeks stats) \<and>
   set (chart_weeks stats) = week ` set stats \<and>
   distinct (map fst (chart_datasets stats)) \<and>
   fst ` set (chart_datasets stats) = author ` set stats \<and>
   (\<forall>(a, d) \<in> set (chart_datasets stats).
      length d = length (chart_weeks stats) \<and>
      (\<forall>i < length (chart_weeks stats).
         if \<exists>r \<in> set stats. author r = a \<and> week r = chart_weeks stats ! i
         then \<exists>r \<in> set stats. author r = a \<and> week r = chart_weeks stats ! i \<and>
                d ! i = commits r
         else d ! i = 0))"
proof -
  have o: "snd (group_stats stats) = []"
    and ks: "own_keys (fst (group_stats stats)) = author ` set stats"
    using foldl_ordinary_authors[OF assms, of "[]"] by (simp_all add: group_stats_def)
  have w: "sorted (chart_weeks stats) \<and> distinct (chart_weeks stats) \<and>
           set (chart_weeks stats) = week ` set stats"
    by (simp add: chart_weeks_def set_new_Set distinct_new_Set)
  have k1: "distinct (map fst (chart_datasets stats))"
    by (simp add: chart_datasets_keys group_stats_def distinct_foldl_group_row)
  have "set (map fst (chart_datasets stats)) = author ` set stats"
    unfolding chart_datasets_keys using ks by (simp add: own_keys_def)
  then have k2: "fst ` set (chart_datasets stats) = author ` set stats"
    by simp
  have e: "length d = length (chart_weeks stats) \<and>
      (\<forall>i < length (chart_weeks stats).
         if \<exists>r \<in> set stats. author r = a \<and> week r = chart_weeks stats ! i
         then \<exists>r \<in> set stats. author r = a \<and> week r = chart_weeks stats ! i \<and>
                d ! i = commits r
         else d ! i = 0)"
    if ad: "(a, d) \<in> set (chart_datasets stats)" for a d
  proof (intro conjI allI impI)
    show "length d = length (chart_weeks stats)"
      by (subst chart_datasets_entry[OF ad]) simp
  next
    fix i assume i: "i < length (chart_weeks stats)"
    let ?w = "chart_weeks stats ! i"
    have di: "d ! i = (case last_row stats a ?w of None \<Rightarrow> 0 | Some r \<Rightarrow> commits r)"
      using i by (subst chart_datasets_entry[OF ad]) (simp add: o split: option.splits)
    show "if \<exists>r \<in> set stats. author r = a \<and> week r = ?w
          then \<exists>r \<in> set stats. author r = a \<and> week r = ?w \<and> d ! i = commits r
          else d ! i = 0"
    proof (cases "last_row stats a ?w")
      case None
      moreover from None have "\<not> (\<exists>r \<in> set stats. author r = a \<and> week r = ?w)"
        by (simp add: last_row_None)
      ultimately show ?thesis using di by auto
    next
      case (Some r)
      from last_row_Some[OF Some] show ?thesis using di Some by auto
    qed
  qed
  from w k1 k2 e show ?thesis by blast
qed

text \<open>
  C2. The claim: for every list of commit rows the chart has the distinct weeks in
  ascending order and, for each distinct author, a series aligned to the weeks, with 0
  for every pair of author and week absent from the input. The script departs from it for
  an author whose name every object inherits. For the single row of an author named
  \<open>constructor\<close> the chart has the week and no series at all. After a row of an author named
  \<open>__proto__\<close> for week \<open>W1\<close>, which is stored on \<open>Object.prototype\<close>, the series of \<open>bob\<close>,
  who has a row for \<open>W2\<close> only, reads 3 for \<open>W1\<close> instead of 0, and \<open>__proto__\<close> has no
  series.
\<close>

theorem renderCommitChart_inherited_author:
  "chart_weeks inherited_author_stats = [''W1''] \<and>
   chart_datasets inherited_author_stats = [] \<and>
   author ` set inherited_author_stats = {''constructor''} \<and>
   chart_weeks proto_author_stats = [''W1'', ''W2''] \<and>
   chart_datasets proto_author_stats = [(''bob'', [3, 5])]"
  by (simp add: chart_datasets_def chart_weeks_def inherited_author_stats_def
      proto_author_stats_def new_Set_def group_stats_def group_row_def series_data_def
      inherited_def object_prototype_names_def)

text \<open>
  C10. When several rows of the input have the same author and week, the series entry for
  that pair is the commit count of the last of them in input order: a later row
  overwrites an earlier one, the counts are not added up.
\<close>

theorem renderCommitChart_last_duplicate_wins:
  assumes "(a, d) \<in> set (chart_datasets stats)"
    and "i < length (chart_weeks stats)"
    and "stats = pre @ r # post"
    and "author r = a" and "week r = chart_weeks stats ! i"
    and "\<forall>r' \<in> set post. \<not> (author r' = a \<and> week r' = week r)"
  shows "d ! i = commits r"
proof -
  have "last_row stats a (week r) = Some r"
    unfolding assms(3) using assms(4,6) by (intro last_row_append) auto
  then show ?thesis
    using assms(2,5) by (subst chart_datasets_entry[OF assms(1)]) simp
qed

theorem renderCommitChart_last_duplicate_wins_witness:
  "(''alice'', [5]) \<in> set (chart_datasets dup_stats) \<and> [5::nat] ! 0 = 5 \<and>
   [5::nat] ! 0 \<noteq> 3 + 5"
  using renderCommitChart_last_duplicate_wins[of "''alice''" "[5]" dup_stats 0
       "[\<lparr>author = ''alice'', week = ''W1'', commits = 3\<rparr>]"
       "\<lparr>author = ''alice'', week = ''W1'', commits = 5\<rparr>" "[]"]
  by (simp add: dup_eval)

section \<open>Properties of the operations on the issue state\<close>

subsection \<open>The shape of each operation's result\<close>

lemma getProjectIds_eq: "getProjectIds s = (project_ids_of s, s\<lparr>projectIds := project_ids_of s\<rparr>)"
  by (simp add: project_ids_of_def getProjectIds_def Let_def)

lemma project_ids_of_upd [simp]:
  "project_ids_of (s\<lparr>projectIds := p\<rparr>) = project_ids_of s"
  "project_ids_of (s\<lparr>toasts := t\<rparr>) = project_ids_of s"
  "project_ids_of (s\<lparr>requests := r\<rparr>) = project_ids_of s"
  by (simp_all add: project_ids_of_def getProjectIds_def Let_def)

lemma buildQueryParams_eq:
  "buildQueryParams s = (query_params s, s\<lparr>projectIds := project_ids_of s\<rparr>)"
  by (simp add: query_params_def buildQueryParams_def getProjectIds_eq Let_def)

lemma query_params_upd [simp]:
  "query_params (s\<lparr>projectIds := p\<rparr>) = query_params s"
  "query_params (s\<lparr>toasts := t\<rparr>) = query_params s"
  "query_params (s\<lparr>requests := r\<rparr>) = query_params s"
  by (simp_all add: query_params_def buildQueryParams_def getProjectIds_eq Let_def)

lemma issues_params_upd [simp]:
  "issues_params af (s\<lparr>projectIds := p\<rparr>) = issues_params af s"
  "issues_params af (s\<lparr>toasts := t\<rparr>) = issues_params af s"
  "issues_params af (s\<lparr>requests := r\<rparr>) = issues_params af s"
  by (simp_all add: issues_params_def)

lemma fetchIssues_empty:
  "project_ids_of s = [] \<Longrightarrow>
   fetchIssues af res s = s\<lparr>projectIds := [], toasts := toasts s @ [EnterProjectIds]\<rparr>"
  by (simp add: fetchIssues_def getProjectIds_eq toast_def)

lemma fetchIssues_NotOk:
  "project_ids_of s \<noteq> [] \<Longrightarrow>
   fetchIssues af NotOk s =
     s\<lparr>projectIds := project_ids_of s,
       requests := requests s @ [GetIssues (issues_params af s)],
       toasts := toasts s @ [IssueFetchFailed]\<rparr>"
  by (simp add: fetchIssues_def getProjectIds_eq buildQueryParams_eq toast_def fetch_def
      issues_params_def)

lemma fetchIssues_Ok:
  "project_ids_of s \<noteq> [] \<Longrightarrow>
   fetchIssues af (Ok data) s =
     renderDashboard (renderIssues
       (s\<lparr>projectIds := project_ids_of s,
          requests := requests s @ [GetIssues (issues_params af s)],
          issues := resp_issues data,
          assigneeSummary := resp_assignee_summary data\<rparr>))"
  by (simp add: fetchIssues_def getProjectIds_eq buildQueryParams_eq toast_def fetch_def
      issues_params_def)

lemma refreshIssues_empty:
  "project_ids_of s = [] \<Longrightarrow>
   refreshIssues res s = s\<lparr>projectIds := [], toasts := toasts s @ [EnterProjectIds]\<rparr>"
  by (simp add: refreshIssues_def getProjectIds_eq toast_def)

lemma refreshIssues_NotOk:
  "project_ids_of s \<noteq> [] \<Longrightarrow>
   refreshIssues NotOk s =
     s\<lparr>projectIds := project_ids_of s,
       requests := requests s @ [PostIssuesRefresh (project_ids_of s) True],
       toasts := toasts s @ [IssueRefreshFailed]\<rparr>"
  by (simp add: refreshIssues_def getProjectIds_eq toast_def fetch_def)

lemma refreshIssues_Ok:
  "project_ids_of s \<noteq> [] \<Longrightarrow>
   refreshIssues (Ok data) s =
     renderDashboard (renderIssues
       (s\<lparr>projectIds := project_ids_of s,
          requests := requests s @ [PostIssuesRefresh (project_ids_of s) True],
          issues := resp_issues data,
          assigneeSummary := resp_assignee_summary data\<rparr>))"
  by (simp add: refreshIssues_def getProjectIds_eq toast_def fetch_def)

lemma refreshIssues_v0_Ok:
  "project_ids_of s \<noteq> [] \<Longrightarrow>
   refreshIssues_v0 (Ok data) s =
     renderIssues_v0
       (s\<lparr>projectIds := project_ids_of s,
          requests := requests s @ [PostIssuesRefresh (project_ids_of s) True],
          issues := resp_issues data,
          assigneeSummary := resp_assignee_summary data\<rparr>)"
  by (simp add: refreshIssues_v0_def getProjectIds_eq toast_def fetch_def)

lemma syncRepos_empty:
  "project_ids_of s = [] \<Longrightarrow>
   syncRepos res s = s\<lparr>projectIds := [], toasts := toasts s @ [EnterProjectIds]\<rparr>"
  by (simp add: syncRepos_def getProjectIds_eq toast_def)

lemma loadCommitStats_empty:
  "project_ids_of s = [] \<Longrightarrow> loadCommitStats res s = s\<lparr>projectIds := []\<rparr>"
  by (simp add: loadCommitStats_def getProjectIds_eq)

text \<open>What the two render functions leave alone.\<close>

lemma project_ids_of_input:
  "input_value t = input_value s \<Longrightarrow> project_ids_of t = project_ids_of s"
  by (simp add: project_ids_of_def getProjectIds_def Let_def)

lemma renderIssues_fields [simp]:
  "issues (renderIssues s) = issues s"
  "input_value (renderIssues s) = input_value s"
  "browser_boxes (renderIssues s) = browser_boxes s"
  "assigneeSummary (renderIssues s) = assigneeSummary s"
  "selectedAssignee (renderIssues s) = selectedAssignee s"
  "projectIds (renderIssues s) = projectIds s"
  "toasts (renderIssues s) = toasts s"
  "requests (renderIssues s) = requests s"
  "select_all_in_table (renderIssues s) = select_all_in_table s"
  "select_all (renderIssues s) = False"
  by (simp_all add: renderIssues_def Let_def)

lemma renderDashboard_fields [simp]:
  "issues (renderDashboard s) = issues s"
  "input_value (renderDashboard s) = input_value s"
  "browser_boxes (renderDashboard s) = browser_boxes s"
  "assigneeSummary (renderDashboard s) = assigneeSummary s"
  "projectIds (renderDashboard s) = projectIds s"
  "toasts (renderDashboard s) = toasts s"
  "requests (renderDashboard s) = requests s"
  "table_rows (renderDashboard s) = table_rows s"
  "select_all (renderDashboard s) = select_all s"
  "select_all_in_table (renderDashboard s) = select_all_in_table s"
  by (simp_all add: renderDashboard_def renderAssigneeSummary_def renderAssigneeChart_def
      updateFilterLabel_def Let_def split: option.splits)

lemma renderIssues_rows:
  "map row_issue (table_rows (renderIssues s)) =
     (case selectedAssignee s of
        None \<Rightarrow> issues s
      | Some sel \<Rightarrow>
          if sel = [] then issues s
          else filter (\<lambda>i. assignee_or_unassigned i = sel) (issues s))"
  "\<forall>r \<in> set (table_rows (renderIssues s)). r = build_row s (row_issue r)"
  by (auto simp: renderIssues_def Let_def comp_def build_row_def split: option.splits)

lemma row_checked_ids_build_row:
  "no_markup i \<Longrightarrow> row_checked_ids (build_row s i) = []"
  by (simp add: row_checked_ids_def build_row_def)

lemma concat_all_Nil: "(\<forall>x \<in> set xs. f x = []) \<Longrightarrow> concat (map f xs) = []"
  by (induction xs) auto

text \<open>After \<open>renderIssues\<close> the selection is empty when no issue of the cache holds markup.\<close>

lemma checked_ids_renderIssues:
  assumes "list_all no_markup (issues s)"
  shows "checked_ids (renderIssues s) = []"
proof -
  have sub: "set (map row_issue (table_rows (renderIssues s))) \<subseteq> set (issues s)"
    unfolding renderIssues_rows(1) by (auto split: option.splits)
  have "row_checked_ids r = []" if r: "r \<in> set (table_rows (renderIssues s))" for r
  proof -
    have "row_issue r \<in> set (issues s)" using sub r by auto
    then have "no_markup (row_issue r)" using assms by (simp add: list_all_iff)
    moreover have "r = build_row s (row_issue r)" using renderIssues_rows(2) r by blast
    ultimately show ?thesis using row_checked_ids_build_row[of "row_issue r" s] by simp
  qed
  then have "concat (map row_checked_ids (table_rows (renderIssues s))) = []"
    by (intro concat_all_Nil) simp
  then show ?thesis by (simp add: checked_ids_def)
qed

lemma checked_ids_renderDashboard [simp]: "checked_ids (renderDashboard s) = checked_ids s"
  by (simp add: checked_ids_def)

lemma selectedAssignee_renderDashboard:
  "selectedAssignee (renderDashboard s) =
     (case selectedAssignee s of
        None \<Rightarrow> None
      | Some sel \<Rightarrow>
          if sel \<noteq> [] \<and> \<not> js_in sel (assigneeSummary s) then None else Some sel)"
  by (auto simp: renderDashboard_def renderAssigneeSummary_def renderAssigneeChart_def
      updateFilterLabel_def Let_def split: option.splits)

lemma loaded_ids: "project_ids_of loaded_state = [Number ''10'']"
  by (simp add: project_ids_of_def getProjectIds_def loaded_state_def initial_state_def
      trim_def white_space_def Let_def)

lemma initial_ids: "project_ids_of initial_state = []"
  by (simp add: project_ids_of_def getProjectIds_def initial_state_def trim_def
      white_space_def Let_def)

lemma refresh_plain: "list_all no_markup (resp_issues refresh_payload)"
  by (simp add: refresh_payload_def issue_incoming_def issue_cached_def no_markup_def
      plain_text_def or_empty_def)

lemma loaded_checked: "checked_ids loaded_state = [1]"
  by (simp add: checked_ids_def row_checked_ids_def loaded_state_def initial_state_def
      issue_cached_def)

subsection \<open>Refreshing the issues\<close>

text \<open>
  C1 (as amended). For every state with a non-empty project id list and every successful
  refresh response, \<open>refreshIssues\<close> replaces the cache by the issue list of the response
  exactly as received, and the assignee summary by the summary of the response: every field
  of every record, category and note included, is the incoming one, and nothing of the
  previous cache is kept. Both copies of the script do so.
\<close>

theorem refreshIssues_replaces_cache:
  assumes "fst (getProjectIds s) \<noteq> []"
  shows "issues (refreshIssues (Ok data) s) = resp_issues data \<and>
         assigneeSummary (refreshIssues (Ok data) s) = resp_assignee_summary data \<and>
         issues (refreshIssues_v0 (Ok data) s) = resp_issues data \<and>
         assigneeSummary (refreshIssues_v0 (Ok data) s) = resp_assignee_summary data"
  using assms
  by (simp add: refreshIssues_Ok refreshIssues_v0_Ok renderIssues_v0_def
      flip: project_ids_of_def)

theorem refreshIssues_replaces_cache_witness:
  "fst (getProjectIds loaded_state) \<noteq> [] \<and>
   issues (refreshIssues (Ok refresh_payload) loaded_state) = [issue_incoming] \<and>
   issues (refreshIssues_v0 (Ok refresh_payload) loaded_state) = [issue_incoming]"
  using refreshIssues_replaces_cache[of loaded_state refresh_payload] loaded_ids
  by (simp add: refresh_payload_def flip: project_ids_of_def)

text \<open>
  The claim as first stated asks for a merge that keeps the cached category and note.
  On \<open>loaded_state\<close> and \<open>refresh_payload\<close> the merge of the specification keeps the cached
  record with \<open>bug\<close> / \<open>x\<close>, whereas the script ends with the incoming record, whose category
  and note are empty.
\<close>

theorem refreshIssues_merge_counterexample:
  "spec_mergeIncremental (issues loaded_state) (resp_issues refresh_payload) = [issue_cached] \<and>
   issues (refreshIssues (Ok refresh_payload) loaded_state) = [issue_incoming] \<and>
   issues (refreshIssues_v0 (Ok refresh_payload) loaded_state) = [issue_incoming] \<and>
   category issue_cached = Some ''bug'' \<and> issue_note issue_cached = Some ''x'' \<and>
   category issue_incoming = Some [] \<and> issue_note issue_incoming = Some [] \<and>
   issues (refreshIssues (Ok refresh_payload) loaded_state) \<noteq>
     spec_mergeIncremental (issues loaded_state) (resp_issues refresh_payload)"
proof -
  have m: "spec_mergeIncremental (issues loaded_state) (resp_issues refresh_payload) = [issue_cached]"
    by (simp add: spec_mergeIncremental_def loaded_state_def initial_state_def
        refresh_payload_def issue_incoming_def issue_cached_def)
  have r: "issues (refreshIssues (Ok refresh_payload) loaded_state) = [issue_incoming]"
    "issues (refreshIssues_v0 (Ok refresh_payload) loaded_state) = [issue_incoming]"
    using loaded_ids
    by (simp_all add: refreshIssues_Ok refreshIssues_v0_Ok renderIssues_v0_def refresh_payload_def)
  have d: "issue_incoming \<noteq> issue_cached"
    by (simp add: issue_incoming_def issue_cached_def)
  show ?thesis
    using m r d by (simp add: issue_incoming_def issue_cached_def)
qed

subsection \<open>The quick filter on the issue table\<close>

text \<open>
  C3 (as amended). For every state, \<open>renderIssues\<close> leaves the cache as it is and shows, in
  cache order: when the quick filter is a non-empty name, exactly the issues whose assignee
  equals it, an issue whose assignee is absent or the empty string counting as
  \<open>Unassigned\<close>; when the quick filter is null (or empty), the whole cache.
\<close>

theorem renderIssues_quick_filter:
  "(selectedAssignee s = Some f \<and> f \<noteq> [] \<longrightarrow>
      map row_issue (table_rows (renderIssues s)) =
        filter (\<lambda>i. (case assignee i of
                        None \<Rightarrow> ''Unassigned''
                      | Some a \<Rightarrow> if a = [] then ''Unassigned'' else a) = f) (issues s)) \<and>
   (selectedAssignee s = None \<or> selectedAssignee s = Some [] \<longrightarrow>
      map row_issue (table_rows (renderIssues s)) = issues s) \<and>
   issues (renderIssues s) = issues s"
  by (auto simp: renderIssues_rows(1) assignee_or_unassigned_def split: option.splits)

theorem renderIssues_quick_filter_witness:
  "selectedAssignee unassigned_state = Some ''Unassigned'' \<and>
   map row_issue (table_rows (renderIssues unassigned_state)) = [issue_empty_assignee] \<and>
   map row_issue (table_rows (renderIssues loaded_state)) = [issue_cached]"
  using renderIssues_quick_filter[of unassigned_state "''Unassigned''"]
        renderIssues_quick_filter[of loaded_state "[]"]
  by (simp add: unassigned_state_def loaded_state_def initial_state_def
      issue_empty_assignee_def issue_cached_def)

text \<open>
  The claim as first stated takes \<open>Unassigned\<close> only for an absent assignee. With the quick
  filter \<open>Unassigned\<close>, an issue whose assignee is the empty string is shown by the script
  and left out by that reading.
\<close>

theorem renderIssues_quick_filter_counterexample:
  "selectedAssignee unassigned_state = Some ''Unassigned'' \<and>
   map row_issue (table_rows (renderIssues unassigned_state)) = [issue_empty_assignee] \<and>
   spec_quick_filter ''Unassigned'' (issues unassigned_state) = [] \<and>
   map row_issue (table_rows (renderIssues unassigned_state)) \<noteq>
     spec_quick_filter ''Unassigned'' (issues unassigned_state)"
  by (simp add: renderIssues_rows(1) assignee_or_unassigned_def spec_quick_filter_def
      unassigned_state_def initial_state_def issue_empty_assignee_def issue_cached_def)

subsection \<open>The quick filter and the assignee summary\<close>

text \<open>
  The only assignment of a name to \<open>state.selectedAssignee\<close> is in \<open>toggleAssigneeFilter\<close>,
  which stores \<open>null\<close> for a falsy name: the empty string is never stored.
\<close>

lemma toggleAssigneeFilter_stores_no_empty_name:
  "selectedAssignee (toggleAssigneeFilter name s) \<noteq> Some []"
  by (auto simp: toggleAssigneeFilter_def selectedAssignee_renderDashboard truthy_def
      split: option.splits)

lemma renderDashboard_keeps_no_empty_name:
  "selectedAssignee s \<noteq> Some [] \<Longrightarrow> selectedAssignee (renderDashboard s) \<noteq> Some []"
  by (auto simp: selectedAssignee_renderDashboard split: option.splits)

text \<open>
  \<open>renderDashboard\<close> keeps the selected assignee when \<open>selectedAssignee in assigneeSummary\<close>
  holds, and clears it otherwise. For a name that no object inherits this is the test for
  a key of the summary: the quick filter is then null or a key of the summary afterwards.
\<close>

lemma renderDashboard_quick_filter_ordinary_name:
  assumes "selectedAssignee s \<noteq> Some []"
    and "\<forall>k. selectedAssignee s = Some k \<longrightarrow> k \<notin> set object_prototype_names"
  shows "(selectedAssignee (renderDashboard s) = None \<or>
          (\<exists>k. selectedAssignee (renderDashboard s) = Some k \<and>
               k \<in> fst ` set (assigneeSummary (renderDashboard s)))) \<and>
         (\<forall>k. selectedAssignee s = Some k \<and> k \<notin> fst ` set (assigneeSummary s) \<longrightarrow>
              selectedAssignee (renderDashboard s) = None) \<and>
         (\<forall>k. selectedAssignee s = Some k \<and> k \<in> fst ` set (assigneeSummary s) \<longrightarrow>
              selectedAssignee (renderDashboard s) = Some k)"
  using assms
  by (auto simp: selectedAssignee_renderDashboard js_in_def split: option.splits)

lemma renderDashboard_keeps_inherited_name:
  "selectedAssignee s = Some k \<Longrightarrow> k \<noteq> [] \<Longrightarrow> k \<in> set object_prototype_names \<Longrightarrow>
   selectedAssignee (renderDashboard s) = Some k"
  by (simp add: selectedAssignee_renderDashboard js_in_def)

text \<open>
  C4. The claim: after every \<open>renderDashboard\<close> the quick filter is null or a key of the
  current assignee summary, a selected assignee absent from the summary being cleared.
  The script departs from it for an assignee whose name every object inherits. Starting
  from \<open>loaded_state\<close>, a fetch brings a summary with the key \<open>constructor\<close>, a click on its
  badge selects it, and a second fetch brings a summary without it: the quick filter is
  still \<open>constructor\<close>, which is not a key of the summary.
\<close>

theorem renderDashboard_inherited_name_kept:
  "selectedAssignee constructor_selected_state = Some ''constructor'' \<and>
   assigneeSummary constructor_selected_state = [(''constructor'', 1)] \<and>
   selectedAssignee constructor_gone_state = Some ''constructor'' \<and>
   assigneeSummary constructor_gone_state = [(''lee'', 1)] \<and>
   ''constructor'' \<notin> fst ` set (assigneeSummary constructor_gone_state)"
proof -
  have "selectedAssignee loaded_state = None"
    by (simp add: loaded_state_def initial_state_def)
  then have "selectedAssignee (fetchIssues False (Ok constructor_payload) loaded_state) = None"
    using loaded_ids by (simp add: fetchIssues_Ok selectedAssignee_renderDashboard)
  moreover have "assigneeSummary (fetchIssues False (Ok constructor_payload) loaded_state) =
                   [(''constructor'', 1)]"
    using loaded_ids by (simp add: fetchIssues_Ok constructor_payload_def)
  ultimately have sel: "selectedAssignee constructor_selected_state = Some ''constructor''"
    by (simp add: constructor_selected_state_def toggleAssigneeFilter_def
        selectedAssignee_renderDashboard truthy_def js_in_def)
  have sum: "assigneeSummary constructor_selected_state = [(''constructor'', 1)]"
    using loaded_ids
    by (simp add: constructor_selected_state_def toggleAssigneeFilter_def fetchIssues_Ok
        constructor_payload_def)
  have inp: "input_value constructor_selected_state = input_value loaded_state"
    using loaded_ids
    by (simp add: constructor_selected_state_def toggleAssigneeFilter_def fetchIssues_Ok)
  have ids: "project_ids_of constructor_selected_state = [Number ''10'']"
    using loaded_ids project_ids_of_input[OF inp] by simp
  have gone: "selectedAssignee constructor_gone_state = Some ''constructor''"
    using ids sel
    by (simp add: constructor_gone_state_def fetchIssues_Ok selectedAssignee_renderDashboard
        js_in_def object_prototype_names_def)
  have sum': "assigneeSummary constructor_gone_state = [(''lee'', 1)]"
    using ids by (simp add: constructor_gone_state_def fetchIssues_Ok refresh_payload_def)
  show ?thesis using sel sum gone sum' by simp
qed

subsection \<open>Closing the selected issues\<close>

lemma closeSelectedIssues_NotOk:
  "checked_ids s \<noteq> [] \<Longrightarrow>
   closeSelectedIssues NotOk fres s =
     s\<lparr>requests := requests s @ [PostBulkClose (checked_ids s)],
       toasts := toasts s @ [IssueCloseFailed]\<rparr>"
  by (simp add: closeSelectedIssues_def Let_def toast_def fetch_def)

lemma closeSelectedIssues_Ok:
  "checked_ids s \<noteq> [] \<Longrightarrow>
   closeSelectedIssues (Ok u) fres s =
     fetchIssues True fres
       (s\<lparr>requests := requests s @ [PostBulkClose (checked_ids s)],
          toasts := toasts s @ [IssuesClosed]\<rparr>)"
  by (simp add: closeSelectedIssues_def Let_def toast_def fetch_def)

text \<open>
  C5. When no check box of the table is checked, \<open>closeSelectedIssues\<close> shows the message
  that no issue is selected and does nothing else: no request is sent and, but for the
  message, the state is the one before.
\<close>

theorem closeSelectedIssues_empty_selection:
  assumes "checked_ids s = []"
  shows "closeSelectedIssues res fres s = s\<lparr>toasts := toasts s @ [NoIssueSelected]\<rparr> \<and>
         toasts (closeSelectedIssues res fres s) = toasts s @ [NoIssueSelected] \<and>
         requests (closeSelectedIssues res fres s) = requests s"
  using assms by (simp add: closeSelectedIssues_def Let_def toast_def)

theorem closeSelectedIssues_empty_selection_witness:
  "checked_ids initial_state = [] \<and>
   toasts (closeSelectedIssues (Ok ()) NotOk initial_state) = [NoIssueSelected] \<and>
   requests (closeSelectedIssues (Ok ()) NotOk initial_state) = []"
  using closeSelectedIssues_empty_selection[of initial_state "Ok ()" NotOk]
  by (simp add: checked_ids_def initial_state_def)

text \<open>
  C6 (as amended). For every non-empty selection: when the bulk close fails, the failure is
  shown, exactly one request has been sent, and cache, table and selection are as before.
  When it succeeds, the success is shown and \<open>fetchIssues(true)\<close> runs on the state so
  reached: if the project id list is non-empty the filtered fetch request is sent, and if
  that fetch succeeds the cache and summary are replaced by its response, the \<open>select-all\<close>
  box is unticked and, when no text field of the issues received holds \<open><\<close> or a double
  quote, the selection becomes empty.
\<close>

theorem closeSelectedIssues_outcomes:
  assumes "checked_ids s \<noteq> []"
  shows "closeSelectedIssues NotOk fres s =
           s\<lparr>requests := requests s @ [PostBulkClose (checked_ids s)],
             toasts := toasts s @ [IssueCloseFailed]\<rparr> \<and>
         closeSelectedIssues (Ok u) fres s =
           fetchIssues True fres
             (s\<lparr>requests := requests s @ [PostBulkClose (checked_ids s)],
                toasts := toasts s @ [IssuesClosed]\<rparr>) \<and>
         (fst (getProjectIds s) \<noteq> [] \<longrightarrow>
            requests (closeSelectedIssues (Ok u) fres s) =
              requests s @ [PostBulkClose (checked_ids s), GetIssues (fst (buildQueryParams s))]) \<and>
         (fst (getProjectIds s) \<noteq> [] \<longrightarrow>
            \<not> select_all (closeSelectedIssues (Ok u) (Ok data) s) \<and>
            issues (closeSelectedIssues (Ok u) (Ok data) s) = resp_issues data \<and>
            assigneeSummary (closeSelectedIssues (Ok u) (Ok data) s) = resp_assignee_summary data) \<and>
         (fst (getProjectIds s) \<noteq> [] \<and> list_all no_markup (resp_issues data) \<longrightarrow>
            checked_ids (closeSelectedIssues (Ok u) (Ok data) s) = [])"
proof (intro conjI impI)
  show "closeSelectedIssues NotOk fres s =
           s\<lparr>requests := requests s @ [PostBulkClose (checked_ids s)],
             toasts := toasts s @ [IssueCloseFailed]\<rparr>"
    using assms by (rule closeSelectedIssues_NotOk)
  show "closeSelectedIssues (Ok u) fres s =
           fetchIssues True fres
             (s\<lparr>requests := requests s @ [PostBulkClose (checked_ids s)],
                toasts := toasts s @ [IssuesClosed]\<rparr>)"
    using assms by (rule closeSelectedIssues_Ok)
next
  assume "fst (getProjectIds s) \<noteq> []"
  then have ids: "project_ids_of s \<noteq> []" by (simp add: project_ids_of_def)
  show "requests (closeSelectedIssues (Ok u) fres s) =
          requests s @ [PostBulkClose (checked_ids s), GetIssues (fst (buildQueryParams s))]"
    using ids
    by (cases fres)
       (simp_all add: closeSelectedIssues_Ok[OF assms] fetchIssues_NotOk fetchIssues_Ok
          issues_params_def, simp_all add: query_params_def)
next
  assume "fst (getProjectIds s) \<noteq> []"
  then have ids: "project_ids_of s \<noteq> []" by (simp add: project_ids_of_def)
  show "\<not> select_all (closeSelectedIssues (Ok u) (Ok data) s)"
    using ids by (simp add: closeSelectedIssues_Ok[OF assms] fetchIssues_Ok)
  show "issues (closeSelectedIssues (Ok u) (Ok data) s) = resp_issues data"
    using ids by (simp add: closeSelectedIssues_Ok[OF assms] fetchIssues_Ok)
  show "assigneeSummary (closeSelectedIssues (Ok u) (Ok data) s) = resp_assignee_summary data"
    using ids by (simp add: closeSelectedIssues_Ok[OF assms] fetchIssues_Ok)
next
  assume "fst (getProjectIds s) \<noteq> [] \<and> list_all no_markup (resp_issues data)"
  then have ids: "project_ids_of s \<noteq> []" and plain: "list_all no_markup (resp_issues data)"
    by (simp_all add: project_ids_of_def)
  show "checked_ids (closeSelectedIssues (Ok u) (Ok data) s) = []"
    using ids plain
    by (simp add: closeSelectedIssues_Ok[OF assms] fetchIssues_Ok checked_ids_renderIssues)
qed

theorem closeSelectedIssues_outcomes_witness:
  "checked_ids loaded_state \<noteq> [] \<and> fst (getProjectIds loaded_state) \<noteq> [] \<and>
   list_all no_markup (resp_issues refresh_payload) \<and>
   checked_ids (closeSelectedIssues NotOk NotOk loaded_state) = [1] \<and>
   issues (closeSelectedIssues NotOk NotOk loaded_state) = [issue_cached] \<and>
   requests (closeSelectedIssues NotOk NotOk loaded_state) = [PostBulkClose [1]] \<and>
   checked_ids (closeSelectedIssues (Ok ()) (Ok refresh_payload) loaded_state) = [] \<and>
   issues (closeSelectedIssues (Ok ()) (Ok refresh_payload) loaded_state) = [issue_incoming]"
proof -
  have c: "checked_ids loaded_state \<noteq> []" by (simp add: loaded_checked)
  have i: "fst (getProjectIds loaded_state) \<noteq> []"
    using loaded_ids by (simp add: project_ids_of_def)
  have p: "list_all no_markup (resp_issues refresh_payload)" by (rule refresh_plain)
  note t = closeSelectedIssues_outcomes[OF c, of NotOk "()" refresh_payload]
  from t have f: "closeSelectedIssues NotOk NotOk loaded_state =
      loaded_state\<lparr>requests := requests loaded_state @ [PostBulkClose (checked_ids loaded_state)],
                   toasts := toasts loaded_state @ [IssueCloseFailed]\<rparr>"
    by blast
  from t i p have ok: "checked_ids (closeSelectedIssues (Ok ()) (Ok refresh_payload) loaded_state) = []"
    "issues (closeSelectedIssues (Ok ()) (Ok refresh_payload) loaded_state) =
       resp_issues refresh_payload"
    by blast+
  have 1: "checked_ids (closeSelectedIssues NotOk NotOk loaded_state) = [1]"
    unfolding f using loaded_checked by (simp add: checked_ids_def)
  have 2: "issues (closeSelectedIssues NotOk NotOk loaded_state) = [issue_cached]"
    unfolding f by (simp add: loaded_state_def)
  have 3: "requests (closeSelectedIssues NotOk NotOk loaded_state) = [PostBulkClose [1]]"
    unfolding f using loaded_checked by (simp add: loaded_state_def initial_state_def)
  show ?thesis using c i p 1 2 3 ok by (simp add: refresh_payload_def)
qed

text \<open>
  The claim as first stated has the selection cleared whenever the bulk close succeeds.
  On \<open>loaded_state\<close> the bulk close succeeds and the fetch that follows fails: the row is
  still checked. With the project id input emptied, no fetch request is sent at all.
\<close>

theorem closeSelectedIssues_selection_kept_counterexample:
  "checked_ids loaded_state = [1] \<and>
   checked_ids (closeSelectedIssues (Ok ()) NotOk loaded_state) = [1] \<and>
   checked_ids (closeSelectedIssues (Ok ()) NotOk loaded_state) \<noteq> [] \<and>
   checked_ids (closeSelectedIssues (Ok ()) (Ok refresh_payload)
                  (loaded_state\<lparr>input_value := (\<lambda>_. [])\<rparr>)) = [1] \<and>
   requests (closeSelectedIssues (Ok ()) (Ok refresh_payload)
               (loaded_state\<lparr>input_value := (\<lambda>_. [])\<rparr>)) = [PostBulkClose [1]]"
proof -
  have c: "checked_ids loaded_state = [1]" by (rule loaded_checked)
  have c': "checked_ids (loaded_state\<lparr>input_value := (\<lambda>_. [])\<rparr>) = [1]"
    using c by (simp add: checked_ids_def)
  have e: "project_ids_of (loaded_state\<lparr>input_value := (\<lambda>_. [])\<rparr>) = []"
    by (simp add: project_ids_of_def getProjectIds_def trim_def white_space_def Let_def)
  have 1: "checked_ids (closeSelectedIssues (Ok ()) NotOk loaded_state) = [1]"
    using c loaded_ids
    by (simp add: closeSelectedIssues_Ok fetchIssues_NotOk) (simp add: checked_ids_def)
  have 2: "checked_ids (closeSelectedIssues (Ok ()) (Ok refresh_payload)
                  (loaded_state\<lparr>input_value := (\<lambda>_. [])\<rparr>)) = [1]"
    using c' e
    by (simp add: closeSelectedIssues_Ok fetchIssues_empty) (simp add: checked_ids_def)
  have 3: "requests (closeSelectedIssues (Ok ()) (Ok refresh_payload)
               (loaded_state\<lparr>input_value := (\<lambda>_. [])\<rparr>)) = [PostBulkClose [1]]"
    using c' e
    by (simp add: closeSelectedIssues_Ok fetchIssues_empty)
       (simp add: loaded_state_def initial_state_def)
  show ?thesis using c 1 2 3 by simp
qed

subsection \<open>A failed fetch or refresh\<close>

text \<open>
  C7. When the call of \<open>fetchIssues\<close> or \<open>refreshIssues\<close> fails, the cache, the assignee
  summary, the quick filter, the table rows and the selection are exactly as before. The
  whole state is the one before but for \<open>state.projectIds\<close>, read again from the input
  box, the request sent and the message shown.
\<close>

theorem fetch_failure_keeps_state:
  "issues (fetchIssues af NotOk s) = issues s \<and>
   assigneeSummary (fetchIssues af NotOk s) = assigneeSummary s \<and>
   selectedAssignee (fetchIssues af NotOk s) = selectedAssignee s \<and>
   table_rows (fetchIssues af NotOk s) = table_rows s \<and>
   select_all (fetchIssues af NotOk s) = select_all s \<and>
   checked_ids (fetchIssues af NotOk s) = checked_ids s \<and>
   issues (refreshIssues NotOk s) = issues s \<and>
   assigneeSummary (refreshIssues NotOk s) = assigneeSummary s \<and>
   selectedAssignee (refreshIssues NotOk s) = selectedAssignee s \<and>
   table_rows (refreshIssues NotOk s) = table_rows s \<and>
   select_all (refreshIssues NotOk s) = select_all s \<and>
   checked_ids (refreshIssues NotOk s) = checked_ids s \<and>
   (fst (getProjectIds s) \<noteq> [] \<longrightarrow>
      fetchIssues af NotOk s =
        s\<lparr>projectIds := fst (getProjectIds s),
          requests := requests s @
            [GetIssues (if af then fst (buildQueryParams s)
                        else [(''project_ids'', Ids (fst (getProjectIds s)))])],
          toasts := toasts s @ [IssueFetchFailed]\<rparr> \<and>
      refreshIssues NotOk s =
        s\<lparr>projectIds := fst (getProjectIds s),
          requests := requests s @ [PostIssuesRefresh (fst (getProjectIds s)) True],
          toasts := toasts s @ [IssueRefreshFailed]\<rparr>)"
proof (cases "project_ids_of s = []")
  case True
  then show ?thesis
    by (simp add: fetchIssues_empty refreshIssues_empty checked_ids_def
        flip: project_ids_of_def)
next
  case False
  then show ?thesis
    by (simp add: fetchIssues_NotOk refreshIssues_NotOk checked_ids_def issues_params_def
        query_params_def flip: project_ids_of_def)
qed

theorem fetch_failure_keeps_state_witness:
  "fst (getProjectIds loaded_state) \<noteq> [] \<and>
   issues (fetchIssues True NotOk loaded_state) = [issue_cached] \<and>
   checked_ids (refreshIssues NotOk loaded_state) = [1] \<and>
   toasts (fetchIssues True NotOk loaded_state) = [IssueFetchFailed] \<and>
   toasts (refreshIssues NotOk loaded_state) = [IssueRefreshFailed]"
  using fetch_failure_keeps_state[of True loaded_state] loaded_ids loaded_checked
  by (simp add: project_ids_of_def)
     (simp add: loaded_state_def initial_state_def checked_ids_def row_checked_ids_def
        issue_cached_def)

subsection \<open>An empty project id list\<close>

text \<open>
  C8 (as amended). With an empty project id list no operation sends a request.
  \<open>syncRepos\<close>, \<open>fetchIssues\<close> and \<open>refreshIssues\<close> show the message asking for project ids;
  \<open>loadCommitStats\<close> returns without a message.
\<close>

theorem empty_project_ids_guard:
  assumes "fst (getProjectIds s) = []"
  shows "syncRepos r1 s = s\<lparr>projectIds := [], toasts := toasts s @ [EnterProjectIds]\<rparr> \<and>
         fetchIssues af r2 s = s\<lparr>projectIds := [], toasts := toasts s @ [EnterProjectIds]\<rparr> \<and>
         refreshIssues r3 s = s\<lparr>projectIds := [], toasts := toasts s @ [EnterProjectIds]\<rparr> \<and>
         loadCommitStats r4 s = s\<lparr>projectIds := []\<rparr> \<and>
         requests (syncRepos r1 s) = requests s \<and>
         requests (fetchIssues af r2 s) = requests s \<and>
         requests (refreshIssues r3 s) = requests s \<and>
         requests (loadCommitStats r4 s) = requests s \<and>
         toasts (loadCommitStats r4 s) = toasts s"
  using assms
  by (simp add: syncRepos_empty fetchIssues_empty refreshIssues_empty loadCommitStats_empty
      project_ids_of_def)

theorem empty_project_ids_guard_witness:
  "fst (getProjectIds initial_state) = [] \<and>
   toasts (syncRepos NotOk initial_state) = [EnterProjectIds] \<and>
   toasts (fetchIssues False NotOk initial_state) = [EnterProjectIds] \<and>
   toasts (refreshIssues NotOk initial_state) = [EnterProjectIds] \<and>
   requests (loadCommitStats NotOk initial_state) = []"
  using empty_project_ids_guard[of initial_state NotOk False NotOk NotOk NotOk] initial_ids
  by (simp add: project_ids_of_def) (simp add: initial_state_def)

text \<open>
  The claim as first stated has every one of the four operations report the error. On the
  initial state \<open>loadCommitStats\<close> shows nothing, whatever the response would have been.
\<close>

theorem loadCommitStats_silent_counterexample:
  "fst (getProjectIds initial_state) = [] \<and>
   (\<forall>res. toasts (loadCommitStats res initial_state) = toasts initial_state) \<and>
   toasts (loadCommitStats NotOk initial_state) = []"
  using initial_ids
  by (simp add: loadCommitStats_empty) (simp add: project_ids_of_def initial_state_def)

subsection \<open>Rebuilding the table and the selection\<close>

text \<open>
  \<open>renderIssues\<close> unticks the \<open>select-all\<close> box and builds every row anew, with its own
  box unticked. When no text field of the issues of the cache holds \<open><\<close> or a double
  quote, the rows have no other box and the selection is empty afterwards; so it is after
  \<open>toggleAssigneeFilter\<close> and after a successful \<open>fetchIssues\<close> or \<open>refreshIssues\<close>.
\<close>

lemma renderIssues_clears_selection_plain:
  "\<not> select_all (renderIssues s) \<and>
   (\<forall>r \<in> set (table_rows (renderIssues s)). \<not> row_checked r) \<and>
   (list_all no_markup (issues s) \<longrightarrow>
      checked_ids (renderIssues s) = [] \<and> checked_ids (toggleAssigneeFilter name s) = []) \<and>
   (fst (getProjectIds s) \<noteq> [] \<and> list_all no_markup (resp_issues data) \<longrightarrow>
      checked_ids (fetchIssues af (Ok data) s) = [] \<and>
      checked_ids (refreshIssues (Ok data) s) = [])"
proof -
  have "\<forall>r \<in> set (table_rows (renderIssues s)). \<not> row_checked r"
    by (simp add: renderIssues_def Let_def build_row_def)
  moreover have "list_all no_markup (issues s) \<longrightarrow>
      checked_ids (renderIssues s) = [] \<and> checked_ids (toggleAssigneeFilter name s) = []"
    by (simp add: toggleAssigneeFilter_def checked_ids_renderIssues)
  moreover have "fst (getProjectIds s) \<noteq> [] \<and> list_all no_markup (resp_issues data) \<longrightarrow>
      checked_ids (fetchIssues af (Ok data) s) = [] \<and>
      checked_ids (refreshIssues (Ok data) s) = []"
    by (simp add: fetchIssues_Ok refreshIssues_Ok checked_ids_renderIssues
        flip: project_ids_of_def)
  ultimately show ?thesis by simp
qed

lemma markup_ids: "project_ids_of markup_page = [Number ''10'']"
  using loaded_ids project_ids_of_input[of markup_page loaded_state]
  by (simp add: markup_page_def)

text \<open>
  C9. The claim: whenever the issue list is rebuilt, the selection becomes empty. The
  script departs from it when a field of an issue holds markup, which it splices into the
  row as it is. On \<open>markup_page\<close>, after a successful fetch of an issue whose title is
  \<open><input type=checkbox checked>\<close>, the row holds a ticked box without \<open>data-id\<close>: the
  selection that \<open>closeSelectedIssues\<close> reads is \<open>[0]\<close>, not empty, although the row's own
  box and the \<open>select-all\<close> box are unticked.
\<close>

theorem renderIssues_markup_selection:
  "issues (fetchIssues False (Ok markup_payload) markup_page) = [markup_issue] \<and>
   title markup_issue = ''<input type=checkbox checked>'' \<and>
   map row_checked (table_rows (fetchIssues False (Ok markup_payload) markup_page)) = [False] \<and>
   \<not> select_all (fetchIssues False (Ok markup_payload) markup_page) \<and>
   checked_ids (fetchIssues False (Ok markup_payload) markup_page) = [0] \<and>
   checked_ids (renderIssues (fetchIssues False (Ok markup_payload) markup_page)) = [0]"
proof -
  let ?t = "fetchIssues False (Ok markup_payload) markup_page"
  have m: "\<not> no_markup markup_issue"
    by (simp add: no_markup_def plain_text_def markup_issue_def issue_cached_def)
  have tt: "title markup_issue = ''<input type=checkbox checked>''"
    by (simp add: markup_issue_def)
  have sel: "selectedAssignee markup_page = None"
    by (simp add: markup_page_def loaded_state_def initial_state_def)
  have f: "?t = renderDashboard (renderIssues
             (markup_page\<lparr>projectIds := project_ids_of markup_page,
                requests := requests markup_page @ [GetIssues (issues_params False markup_page)],
                issues := [markup_issue],
                assigneeSummary := [(''lee'', 1)]\<rparr>))"
    using markup_ids by (simp add: fetchIssues_Ok markup_payload_def)
  have rows: "table_rows ?t =
                [\<lparr>row_issue = markup_issue, row_checked = False, row_extra = [(0, True)]\<rparr>]"
    unfolding f using sel
    by (simp add: renderIssues_def Let_def build_row_def m tt markup_page_def)
  have i: "issues ?t = [markup_issue]" unfolding f by simp
  have sa: "\<not> select_all ?t" unfolding f by simp
  have c: "checked_ids ?t = [0]"
    using rows sa by (simp add: checked_ids_def row_checked_ids_def)
  have sel': "selectedAssignee ?t = None"
    unfolding f using sel by (simp add: selectedAssignee_renderDashboard)
  have bb: "browser_boxes ?t = browser_boxes markup_page" unfolding f by simp
  have rows': "table_rows (renderIssues ?t) =
                [\<lparr>row_issue = markup_issue, row_checked = False, row_extra = [(0, True)]\<rparr>]"
    using sel' i bb m
    by (simp add: renderIssues_def Let_def build_row_def tt markup_page_def)
  have c': "checked_ids (renderIssues ?t) = [0]"
    using rows' by (simp add: checked_ids_def row_checked_ids_def)
  show ?thesis using i rows sa c c' tt by simp
qed

subsection \<open>The quick filter is never the empty string\<close>

lemma selectedAssignee_frame [simp]:
  "selectedAssignee (toast m s) = selectedAssignee s"
  "selectedAssignee (fetch r s) = selectedAssignee s"
  "selectedAssignee (renderCommitChart stats s) = selectedAssignee s"
  by (simp_all add: toast_def fetch_def renderCommitChart_def)

lemma quick_filter_never_empty:
  assumes "selectedAssignee s \<noteq> Some []"
  shows "selectedAssignee (renderIssues s) \<noteq> Some []"
    and "selectedAssignee (renderDashboard s) \<noteq> Some []"
    and "selectedAssignee (fetchIssues af r1 s) \<noteq> Some []"
    and "selectedAssignee (refreshIssues r1 s) \<noteq> Some []"
    and "selectedAssignee (closeSelectedIssues r2 r1 s) \<noteq> Some []"
    and "selectedAssignee (loadCommitStats r3 s) \<noteq> Some []"
    and "selectedAssignee (syncRepos r4 s) \<noteq> Some []"
proof -
  show "selectedAssignee (renderIssues s) \<noteq> Some []"
    using assms by simp
  show "selectedAssignee (renderDashboard s) \<noteq> Some []"
    using assms by (rule renderDashboard_keeps_no_empty_name)
  have f: "selectedAssignee (fetchIssues b r1 t) \<noteq> Some []"
    if "selectedAssignee t \<noteq> Some []" for t b
  proof (cases "project_ids_of t = []")
    case True
    then show ?thesis using that by (simp add: fetchIssues_empty)
  next
    case False
    then show ?thesis using that
      by (cases r1)
         (simp_all add: fetchIssues_NotOk fetchIssues_Ok renderDashboard_keeps_no_empty_name)
  qed
  show "selectedAssignee (fetchIssues af r1 s) \<noteq> Some []"
    using assms by (rule f)
  show "selectedAssignee (refreshIssues r1 s) \<noteq> Some []"
  proof (cases "project_ids_of s = []")
    case True
    then show ?thesis using assms by (simp add: refreshIssues_empty)
  next
    case False
    then show ?thesis using assms
      by (cases r1)
         (simp_all add: refreshIssues_NotOk refreshIssues_Ok renderDashboard_keeps_no_empty_name)
  qed
  show "selectedAssignee (closeSelectedIssues r2 r1 s) \<noteq> Some []"
    using assms f[of _ True]
    by (cases r2) (simp_all add: closeSelectedIssues_def Let_def)
  show "selectedAssignee (loadCommitStats r3 s) \<noteq> Some []"
    using assms
    by (cases r3) (simp_all add: loadCommitStats_def getProjectIds_eq)
  show "selectedAssignee (syncRepos r4 s) \<noteq> Some []"
    using assms
    by (cases r4) (simp_all add: syncRepos_def getProjectIds_eq)
qed

end
